theory Spec2Isabelle
  imports Main
begin

section \<open>Python strings\<close>

text \<open>
  A Python \<open>str\<close> is modelled as a \<open>string\<close>, one \<open>char\<close> per character: the
  characters are the code points 0 to 255 (Latin-1). The case, digit and whitespace classes
  below are the ones Python gives to these code points.
\<close>

definition ascii_uppercase :: string where
  "ascii_uppercase = ''ABCDEFGHIJKLMNOPQRSTUVWXYZ''"

definition ascii_lowercase :: string where
  "ascii_lowercase = ''abcdefghijklmnopqrstuvwxyz''"

text \<open>The uppercase letters 0xC0 to 0xDE (without the multiplication sign 0xD7), and the
  letters that \<open>lower\<close> maps them to, 0xE0 to 0xFE (without the division sign 0xF7), in the
  same order.\<close>

definition latin1_uppercase :: string where
  "latin1_uppercase =
     [CHR 0xC0, CHR 0xC1, CHR 0xC2, CHR 0xC3, CHR 0xC4, CHR 0xC5, CHR 0xC6, CHR 0xC7,
      CHR 0xC8, CHR 0xC9, CHR 0xCA, CHR 0xCB, CHR 0xCC, CHR 0xCD, CHR 0xCE, CHR 0xCF,
      CHR 0xD0, CHR 0xD1, CHR 0xD2, CHR 0xD3, CHR 0xD4, CHR 0xD5, CHR 0xD6, CHR 0xD8,
      CHR 0xD9, CHR 0xDA, CHR 0xDB, CHR 0xDC, CHR 0xDD, CHR 0xDE]"

definition latin1_lowercase :: string where
  "latin1_lowercase =
     [CHR 0xE0, CHR 0xE1, CHR 0xE2, CHR 0xE3, CHR 0xE4, CHR 0xE5, CHR 0xE6, CHR 0xE7,
      CHR 0xE8, CHR 0xE9, CHR 0xEA, CHR 0xEB, CHR 0xEC, CHR 0xED, CHR 0xEE, CHR 0xEF,
      CHR 0xF0, CHR 0xF1, CHR 0xF2, CHR 0xF3, CHR 0xF4, CHR 0xF5, CHR 0xF6, CHR 0xF8,
      CHR 0xF9, CHR 0xFA, CHR 0xFB, CHR 0xFC, CHR 0xFD, CHR 0xFE]"

text \<open>\<open>c.isupper()\<close> on one character.\<close>

definition ch_isupper :: "char \<Rightarrow> bool" where
  "ch_isupper c = (c \<in> set (ascii_uppercase @ latin1_uppercase))"

text \<open>\<open>c.islower()\<close> on one character: besides the images of the uppercase letters, the
  two ordinal indicators 0xAA and 0xBA, the micro sign 0xB5, the sharp s 0xDF and the
  y with diaeresis 0xFF.\<close>

definition ch_islower :: "char \<Rightarrow> bool" where
  "ch_islower c = (c \<in> set (ascii_lowercase @ latin1_lowercase
                              @ [CHR 0xAA, CHR 0xB5, CHR 0xBA, CHR 0xDF, CHR 0xFF]))"

text \<open>The classes \<open>[A-Z]\<close> and \<open>[a-z]\<close> of a pattern, which are ASCII ranges.\<close>

definition ch_ascii_upper :: "char \<Rightarrow> bool" where
  "ch_ascii_upper c = (c \<in> set ascii_uppercase)"

definition ch_ascii_lower :: "char \<Rightarrow> bool" where
  "ch_ascii_lower c = (c \<in> set ascii_lowercase)"

text \<open>The class \<open>\d\<close> of a pattern: the decimal digits.\<close>

definition ch_isdigit :: "char \<Rightarrow> bool" where
  "ch_isdigit c = (c \<in> set ''0123456789'')"

text \<open>\<open>c.isspace()\<close> on one character, which is also the class \<open>\s\<close> of a pattern and
  what \<open>strip\<close> removes: tab, line feed, vertical tab, form feed, carriage return, the four
  separators 0x1C to 0x1F, the space, the next-line control 0x85 and the no-break space
  0xA0.\<close>

definition ch_isspace :: "char \<Rightarrow> bool" where
  "ch_isspace c = (c \<in> set [CHR 0x09, CHR 0x0A, CHR 0x0B, CHR 0x0C, CHR 0x0D,
                             CHR 0x1C, CHR 0x1D, CHR 0x1E, CHR 0x1F, CHR 0x20,
                             CHR 0x85, CHR 0xA0])"

text \<open>\<open>c.lower()\<close> on one character.\<close>

definition ch_lower :: "char \<Rightarrow> char" where
  "ch_lower c = (case map_of (zip (ascii_uppercase @ latin1_uppercase)
                                  (ascii_lowercase @ latin1_lowercase)) c of
                   Some d \<Rightarrow> d | None \<Rightarrow> c)"

text \<open>\<open>s.lower()\<close>\<close>

definition lower :: "string \<Rightarrow> string" where
  "lower s = map ch_lower s"

text \<open>\<open>s.strip()\<close>\<close>

definition strip :: "string \<Rightarrow> string" where
  "strip s = rev (dropWhile ch_isspace (rev (dropWhile ch_isspace s)))"

text \<open>\<open>s.startswith(p)\<close>\<close>

fun startswith :: "string \<Rightarrow> string \<Rightarrow> bool" where
  "startswith s [] = True"
| "startswith [] (p # ps) = False"
| "startswith (c # cs) (p # ps) = (c = p \<and> startswith cs ps)"

text \<open>\<open>needle in hay\<close>\<close>

fun is_in :: "string \<Rightarrow> string \<Rightarrow> bool" where
  "is_in needle [] = (needle = [])"
| "is_in needle (c # cs) = (startswith (c # cs) needle \<or> is_in needle cs)"

text \<open>\<open>any(p in s for p in phrases)\<close>\<close>

definition any_in :: "string list \<Rightarrow> string \<Rightarrow> bool" where
  "any_in phrases s = list_ex (\<lambda>p. is_in p s) phrases"

text \<open>\<open>s.split('\n')\<close>\<close>

fun split_nl :: "string \<Rightarrow> string list" where
  "split_nl [] = [[]]"
| "split_nl (c # cs) =
     (if c = CHR 0x0A then [] # split_nl cs
      else (case split_nl cs of [] \<Rightarrow> [[c]] | l # ls \<Rightarrow> (c # l) # ls))"

text \<open>\<open>sep.join(parts)\<close>\<close>

fun join :: "string \<Rightarrow> string list \<Rightarrow> string" where
  "join sep [] = []"
| "join sep [x] = x"
| "join sep (x # y # ys) = x @ sep @ join sep (y # ys)"

text \<open>\<open>s.isupper()\<close>: no character is lowercase and some character is uppercase (no
  character of this range is titlecase).\<close>

definition isupper :: "string \<Rightarrow> bool" where
  "isupper s = (list_ex ch_isupper s \<and> \<not> list_ex ch_islower s)"

text \<open>\<open>s.istitle()\<close>, the loop of CPython: an uppercase character may not follow a cased
  one, a lowercase character must follow a cased one, and some character is cased.\<close>

fun istitle_loop :: "bool \<Rightarrow> bool \<Rightarrow> string \<Rightarrow> bool" where
  "istitle_loop previous_is_cased cased [] = cased"
| "istitle_loop previous_is_cased cased (c # cs) =
     (if ch_isupper c then
        (if previous_is_cased then False else istitle_loop True True cs)
      else if ch_islower c then
        (if \<not> previous_is_cased then False else istitle_loop True True cs)
      else istitle_loop False cased cs)"

definition istitle :: "string \<Rightarrow> bool" where
  "istitle s = istitle_loop False False s"

text \<open>\<open>list(dict.fromkeys(xs))\<close>: the keys of a dict keep the order in which they were
  first inserted.\<close>

fun fromkeys_loop :: "'a list \<Rightarrow> 'a list \<Rightarrow> 'a list" where
  "fromkeys_loop keys [] = keys"
| "fromkeys_loop keys (x # xs) =
     fromkeys_loop (if x \<in> set keys then keys else keys @ [x]) xs"

definition dict_fromkeys :: "'a list \<Rightarrow> 'a list" where
  "dict_fromkeys xs = fromkeys_loop [] xs"

section \<open>Regular expressions\<close>

text \<open>
  The three patterns of the scraper are built from the combinators below. A pattern takes
  the text that is left and returns what is left after each way of matching, in the order
  in which the backtracking matcher of \<open>re\<close> tries them; the head of the list is the match it
  reports.
\<close>

type_synonym rx = "string \<Rightarrow> string list"

definition rx_lit :: "string \<Rightarrow> rx" where
  "rx_lit w s = (if startswith s w then [drop (length w) s] else [])"

definition rx_char :: "(char \<Rightarrow> bool) \<Rightarrow> rx" where
  "rx_char P s = (case s of [] \<Rightarrow> [] | c # cs \<Rightarrow> if P c then [cs] else [])"

definition rx_seq :: "rx \<Rightarrow> rx \<Rightarrow> rx" where
  "rx_seq a b s = concat (map b (a s))"

definition rx_alt :: "rx \<Rightarrow> rx \<Rightarrow> rx" where
  "rx_alt a b s = a s @ b s"

text \<open>\<open>(?:a)?\<close>, greedy: with \<open>a\<close> first, then without.\<close>

definition rx_opt :: "rx \<Rightarrow> rx" where
  "rx_opt a s = a s @ [s]"

text \<open>\<open>[P]+\<close>, greedy: the longest run first, down to one character.\<close>

definition rx_plus :: "(char \<Rightarrow> bool) \<Rightarrow> rx" where
  "rx_plus P s = map (\<lambda>k. drop k s) (rev [1 ..< Suc (length (takeWhile P s))])"

text \<open>\<open>[P]+?\<close>, lazy: one character first, up to the longest run.\<close>

definition rx_plus_lazy :: "(char \<Rightarrow> bool) \<Rightarrow> rx" where
  "rx_plus_lazy P s = map (\<lambda>k. drop k s) [1 ..< Suc (length (takeWhile P s))]"

text \<open>\<open>$\<close> without MULTILINE: at the end, or before a line feed that ends the text.\<close>

definition rx_eol :: rx where
  "rx_eol s = (if s = [] \<or> s = [CHR 0x0A] then [s] else [])"

text \<open>\<open>(?=a)\<close>\<close>

definition rx_ahead :: "rx \<Rightarrow> rx" where
  "rx_ahead a s = (if a s = [] then [] else [s])"

text \<open>\<open>re.search(p, s)\<close> as a truth value: \<open>p\<close> matches at some position of \<open>s\<close>,
  the end included.\<close>

fun re_search :: "rx \<Rightarrow> string \<Rightarrow> bool" where
  "re_search p [] = (p [] \<noteq> [])"
| "re_search p (c # cs) = (p (c # cs) \<noteq> [] \<or> re_search p cs)"

text \<open>\<open>re.match(p, s)\<close> as a truth value: \<open>p\<close> matches at the start of \<open>s\<close>.\<close>

definition re_match :: "rx \<Rightarrow> string \<Rightarrow> bool" where
  "re_match p s = (p s \<noteq> [])"

text \<open>\<open>event\s+\d+\<close>\<close>

definition event_pattern :: rx where
  "event_pattern = rx_seq (rx_lit ''event'') (rx_seq (rx_plus ch_isspace) (rx_plus ch_isdigit))"

text \<open>\<open>^[A-Z][a-z]+$\<close>, used with \<open>re.match\<close>, which anchors it at the start.\<close>

definition word_pattern :: rx where
  "word_pattern = rx_seq (rx_char ch_ascii_upper) (rx_seq (rx_plus ch_ascii_lower) rx_eol)"

text \<open>\<open>(\d+(?:,\d+)?(?:-meter|-mile)?)\s+([a-zA-Z\-\s]+?)(?=\n|,|$)\<close>, in its four parts: the
  first group, the whitespace, the second group, the lookahead.\<close>

definition quantity_pattern :: rx where
  "quantity_pattern =
     rx_seq (rx_plus ch_isdigit)
       (rx_seq (rx_opt (rx_seq (rx_lit '','') (rx_plus ch_isdigit)))
               (rx_opt (rx_alt (rx_lit ''-meter'') (rx_lit ''-mile''))))"

definition name_ch :: "char \<Rightarrow> bool" where
  "name_ch c = (ch_ascii_lower c \<or> ch_ascii_upper c \<or> c = CHR ''-'' \<or> ch_isspace c)"

definition name_pattern :: rx where
  "name_pattern = rx_plus_lazy name_ch"

definition end_ahead :: rx where
  "end_ahead = rx_ahead (rx_alt (rx_lit [CHR 0x0A]) (rx_alt (rx_lit '','') rx_eol))"

text \<open>One match attempt at the start of \<open>s\<close>: the two groups and the number of characters
  the match spans, or \<open>None\<close>.\<close>

definition movement_match :: "string \<Rightarrow> (string \<times> string \<times> nat) option" where
  "movement_match s =
     (case [(r1, r2, r3). r1 \<leftarrow> quantity_pattern s, r2 \<leftarrow> rx_plus ch_isspace r1,
                          r3 \<leftarrow> name_pattern r2, r4 \<leftarrow> end_ahead r3] of
        [] \<Rightarrow> None
      | (r1, r2, r3) # _ \<Rightarrow>
          Some (take (length s - length r1) s, take (length r2 - length r3) r2,
                length s - length r3))"

text \<open>\<open>re.findall\<close> with that pattern: the matches from left to right, each search starting
  where the previous match ended. A match spans at least one character.\<close>

function findall_movement :: "string \<Rightarrow> (string \<times> string) list" where
  "findall_movement [] = []"
| "findall_movement (c # cs) =
     (case movement_match (c # cs) of
        None \<Rightarrow> findall_movement cs
      | Some (g1, g2, n) \<Rightarrow> (g1, g2) # findall_movement (drop (n - 1) cs))"
  by pat_completeness auto
termination
  by (relation "measure length") auto

section \<open>The parsed page\<close>

text \<open>
  The tree that BeautifulSoup hands to the scraper: a text node, or a tag with its name and
  its children. The \<open>soup\<close> that \<open>extract_workout_content\<close> takes below is the tree as it is
  when line 139 of the source reads it, after the two passes that delete comment sections;
  a tree with no comment section is left as it was by them.
\<close>

datatype element = NavigableString string | Tag string "element list"

text \<open>\<open>element.get_text()\<close>\<close>

fun get_text :: "element \<Rightarrow> string" where
  "get_text (NavigableString s) = s"
| "get_text (Tag n children) = concat (map get_text children)"

fun descendants :: "element \<Rightarrow> element list" where
  "descendants (NavigableString s) = []"
| "descendants (Tag n children) = concat (map (\<lambda>c. c # descendants c) children)"

fun has_name :: "string list \<Rightarrow> element \<Rightarrow> bool" where
  "has_name names (NavigableString s) = False"
| "has_name names (Tag n children) = (n \<in> set names)"

text \<open>\<open>soup.find_all(names)\<close>: the tags below \<open>soup\<close> with one of the names, in document
  order.\<close>

definition find_all :: "string list \<Rightarrow> element \<Rightarrow> element list" where
  "find_all names soup = filter (has_name names) (descendants soup)"

section \<open>The extracted content\<close>

record content =
  title :: string
  description :: string
  movements :: "string list"
  scaling :: string
  stimulus :: string
  is_named_workout :: bool
  is_hero_workout :: bool
  is_rest_day :: bool

definition rest_day_description :: string where
  "rest_day_description = ''Rest Day - Recovery and mobility work recommended''"

subsection \<open>Titles\<close>

definition skip_phrases :: "string list" where
  "skip_phrases = [''watch now'', ''are live'', ''shop'', ''buy'', ''sale'', ''click here'',
                   ''subscribe'']"

text \<open>The body of the loop over the \<open>strong\<close> and \<open>b\<close> tags (lines 151 to 166).\<close>

definition bold_step :: "string list \<Rightarrow> element \<Rightarrow> string list" where
  "bold_step potential_titles bold =
     (let text = strip (get_text bold) in
      if text \<noteq> [] \<and> length text > 5 \<and> length text \<le> 50 then
        if any_in skip_phrases (lower text) then potential_titles
        else if re_search event_pattern (lower text) then text # potential_titles
        else if any_in [''games'', ''hero'', ''benchmark''] (lower text)
          then potential_titles @ [text]
        else if isupper text \<or> (ch_isupper (hd text) \<and> \<not> list_ex ch_islower (tl text))
          then potential_titles @ [text]
        else potential_titles
      else potential_titles)"

definition skip_patterns :: "string list" where
  "skip_patterns = [''workout of the day'', ''wod'', ''scaling'', ''stimulus'', ''strategy'',
                    ''coaching'', ''resources'', ''post'', ''compare'', ''intermediate option'',
                    ''beginner option'', ''comments'']"

text \<open>The body of the loop over the headings (lines 169 to 183).\<close>

definition heading_step :: "string list \<Rightarrow> element \<Rightarrow> string list" where
  "heading_step potential_titles heading =
     (let text = strip (get_text heading) in
      if text \<noteq> [] \<and> length text \<le> 50 \<and> \<not> any_in skip_patterns (lower text) then
        if isupper text \<or> istitle text \<or> re_match word_pattern text
           \<or> is_in ''games'' (lower text) \<or> is_in ''event'' (lower text)
          then potential_titles @ [text]
        else potential_titles
      else potential_titles)"

definition find_titles :: "element \<Rightarrow> string list" where
  "find_titles soup =
     foldl heading_step
       (foldl bold_step [] (find_all [''strong'', ''b''] soup))
       (find_all [''h1'', ''h2'', ''h3''] soup)"

subsection \<open>The workout body\<close>

definition start_indicators :: "string list" where
  "start_indicators = [''for time:'', ''amrap'', ''emom'', ''rounds for time:'', ''complete:'']"

definition section_markers :: "string list" where
  "section_markers = [''stimulus'', ''scaling'', ''intermediate option'', ''beginner option'',
                      ''coaching'', ''resources'', ''comments'', ''post time'']"

text \<open>
  The loop of lines 203 to 231 over the lines that are left, with its two variables; the
  \<open>break\<close> returns the lines collected so far. The variable \<open>workout_title_candidate\<close> of
  the source is written in that loop and never read, and is left out.
\<close>

fun workout_loop :: "bool \<Rightarrow> string list \<Rightarrow> string list \<Rightarrow> string list" where
  "workout_loop found_workout workout_lines [] = workout_lines"
| "workout_loop found_workout workout_lines (l # ls) =
     (let line = strip l in
      if line = [] \<or> is_in ''commented on:'' (lower line)
        then workout_loop found_workout workout_lines ls
      else
        let found = (found_workout \<or> any_in start_indicators (lower line)) in
        if found then
          if any_in section_markers (lower line) then workout_lines
          else if line \<noteq> [] \<and> \<not> startswith line ''**''
            then workout_loop found (workout_lines @ [line]) ls
          else workout_loop found workout_lines ls
        else workout_loop found workout_lines ls)"

text \<open>The movements of one collected line (lines 245 to 250).\<close>

definition line_movements :: "string \<Rightarrow> string list" where
  "line_movements line =
     [movement. (g1, g2) \<leftarrow> findall_movement line,
                movement \<leftarrow> [g1 @ '' '' @ strip g2],
                3 < length movement \<and> length movement < 50]"

subsection \<open>Scaling and stimulus\<close>

text \<open>
  The inner loop that the source writes three times (lines 263 to 271, 281 to 289 and 305
  to 313): over the window of lines after a header, skip the blank ones, stop at a marker,
  keep the others unless they start with \<open>**\<close>. The window \<open>range(i+1, min(i+10, len(lines)))\<close>
  is the first nine lines after line \<open>i\<close>.
\<close>

fun collect_window :: "string list \<Rightarrow> string list \<Rightarrow> string list \<Rightarrow> string list" where
  "collect_window markers collected [] = collected"
| "collect_window markers collected (l # ls) =
     (let next_line = strip l in
      if next_line = [] then collect_window markers collected ls
      else if any_in markers (lower next_line) then collected
      else if next_line \<noteq> [] \<and> \<not> startswith next_line ''**''
        then collect_window markers (collected @ [next_line]) ls
      else collect_window markers collected ls)"

text \<open>Method 1 (lines 259 to 272): the first line with \<open>scaling:\<close>.\<close>

fun scaling_section :: "string list \<Rightarrow> string list" where
  "scaling_section [] = []"
| "scaling_section (line # rest) =
     (if is_in ''scaling:'' (lower line)
      then collect_window [''intermediate option:'', ''beginner option:'', ''coaching'',
                           ''resources'', ''stimulus''] [] (take 9 rest)
      else scaling_section rest)"

text \<open>Method 2 (lines 276 to 292), for one \<open>option_type\<close>: every line with it.\<close>

fun option_loop :: "string \<Rightarrow> string list \<Rightarrow> string list \<Rightarrow> string list" where
  "option_loop option_type scaling_parts [] = scaling_parts"
| "option_loop option_type scaling_parts (line # rest) =
     (if is_in option_type (lower line) then
        let option_text = collect_window [''option:'', ''coaching'', ''resources'', ''stimulus'',
                                          ''comments''] [line] (take 9 rest) in
        if length option_text > 1
          then option_loop option_type (scaling_parts @ [join [CHR 0x0A] option_text]) rest
        else option_loop option_type scaling_parts rest
      else option_loop option_type scaling_parts rest)"

text \<open>Lines 301 to 314: the first line with \<open>stimulus and strategy:\<close> or \<open>stimulus:\<close>.\<close>

fun stimulus_section :: "string list \<Rightarrow> string list" where
  "stimulus_section [] = []"
| "stimulus_section (line # rest) =
     (if is_in ''stimulus and strategy:'' (lower line) \<or> is_in ''stimulus:'' (lower line)
      then collect_window [''scaling:'', ''intermediate option:'', ''beginner option:'',
                           ''coaching'', ''resources''] [] (take 9 rest)
      else stimulus_section rest)"

subsection \<open>Hero workouts\<close>

definition hero_indicators :: "string list" where
  "hero_indicators = [''lt.'', ''lieutenant'', ''sgt.'', ''sergeant'', ''cpl.'', ''corporal'',
                      ''pfc.'', ''private'', ''captain'', ''major'', ''colonel'']"

definition hero_phrases :: "string list" where
  "hero_phrases = [''fallen'', ''killed in action'', ''kia'', ''memorial'', ''died'',
                   ''gave his life'', ''gave her life'']"

subsection \<open>The extraction\<close>

definition extract_workout_content :: "element \<Rightarrow> string \<Rightarrow> content" where
  "extract_workout_content soup date_str =
     (let content = \<lparr>title = date_str, description = [], movements = [], scaling = [],
                     stimulus = [], is_named_workout = False, is_hero_workout = False,
                     is_rest_day = False\<rparr>;
          page_text = lower (get_text soup)
      in
      if is_in ''rest day'' page_text then
        content\<lparr>is_rest_day := True, description := rest_day_description\<rparr>
      else
        let potential_titles = find_titles soup;
            content = (if potential_titles \<noteq> []
                       then content\<lparr>title := hd potential_titles, is_named_workout := True\<rparr>
                       else content);
            lines = split_nl (get_text soup);
            workout_lines = workout_loop False [] lines;
            content = (if workout_lines \<noteq> []
                       then content\<lparr>description := join [CHR 0x0A] (take 10 workout_lines)\<rparr>
                       else content);
            movements = concat (map line_movements workout_lines);
            content = content\<lparr>movements := take 8 (dict_fromkeys movements)\<rparr>;
            scaling_parts = scaling_section lines;
            scaling_parts = option_loop ''intermediate option:'' scaling_parts lines;
            scaling_parts = option_loop ''beginner option:'' scaling_parts lines;
            content = (if scaling_parts \<noteq> []
                       then content\<lparr>scaling := join [CHR 0x0A, CHR 0x0A] scaling_parts\<rparr>
                       else content);
            stimulus_lines = stimulus_section lines;
            content = (if stimulus_lines \<noteq> []
                       then content\<lparr>stimulus := join '' '' stimulus_lines\<rparr>
                       else content);
            has_military_rank = any_in hero_indicators page_text;
            has_memorial_language = any_in hero_phrases page_text;
            is_reference_only = (is_in ''reminiscent of a hero workout'' page_text
                                 \<or> is_in ''similar to'' page_text
                                 \<or> is_in ''like the hero workout'' page_text)
        in
        if has_military_rank \<and> has_memorial_language \<and> \<not> is_reference_only
          then content\<lparr>is_hero_workout := True, is_named_workout := True\<rparr>
        else content)"

section \<open>Notions used in the statements\<close>

text \<open>The first occurrences of the elements of a list, in the order of the list: the
  element at position \<open>i\<close> stays when it does not occur before position \<open>i\<close>.\<close>

definition first_occurrences :: "'a list \<Rightarrow> 'a list" where
  "first_occurrences xs =
     map (nth xs) (filter (\<lambda>i. xs ! i \<notin> set (take i xs)) [0 ..< length xs])"

text \<open>A bold tag that the loop of lines 151 to 166 puts at the front of the candidates: its
  text passes the length test of line 153 and the promotional filter of line 156, and matches
  the pattern of line 160.\<close>

definition event_candidate :: "element \<Rightarrow> bool" where
  "event_candidate bold =
     (let text = strip (get_text bold) in
      5 < length text \<and> length text \<le> 50 \<and> \<not> any_in skip_phrases (lower text)
      \<and> re_search event_pattern (lower text))"

text \<open>The \<open>option_text\<close> that lines 278 to 289 collect for the header at line \<open>i\<close>.\<close>

definition option_block :: "string list \<Rightarrow> nat \<Rightarrow> string list" where
  "option_block lines i =
     collect_window [''option:'', ''coaching'', ''resources'', ''stimulus'', ''comments'']
       [lines ! i] (take 9 (drop (Suc i) lines))"

section \<open>Example pages\<close>

text \<open>A page that dedicates the workout to a fallen soldier.\<close>

definition hero_page :: element where
  "hero_page = Tag ''[document]''
     [Tag ''p'' [NavigableString ''In honor of Sgt. Smith, killed in action.'']]"

text \<open>A rest day whose page also carries a heading, a bold Games title and the signals of
  a hero workout.\<close>

definition rest_page :: element where
  "rest_page = Tag ''[document]''
     [Tag ''h2'' [NavigableString ''Murph''],
      Tag ''p'' [Tag ''strong'' [NavigableString ''GAMES EVENT 1''],
                 NavigableString '' Rest Day. In memory of Lt. Murphy, who died in 2005.'']]"

text \<open>A workout of eleven movement lines, one of them twice.\<close>

definition movements_page :: element where
  "movements_page = Tag ''[document]''
     [Tag ''p'' [NavigableString (join [CHR 0x0A]
        [''For time:'', ''400-meter run'', ''21 thrusters'', ''400-meter run'', ''15 pull-ups'',
         ''9 burpees'', ''50 double-unders'', ''30 sit-ups'', ''20 lunges'', ''10 push-ups'',
         ''5 deadlifts'', ''3 cleans''])]]"

text \<open>A workout whose lines carry no-break spaces (0xA0): one after a line, one inside a
  line, and one that is a line of its own.\<close>

definition nbsp_page :: element where
  "nbsp_page = Tag ''[document]''
     [Tag ''p'' [NavigableString (join [CHR 0x0A]
        [''For time:'', ''21 thrusters'' @ [CHR 0xA0], [CHR 0xA0],
         ''15'' @ [CHR 0xA0] @ ''pull-ups''])]]"

text \<open>Two bold event titles, the second written with a no-break space.\<close>

definition nbsp_event_page :: element where
  "nbsp_event_page = Tag ''[document]''
     [Tag ''p'' [Tag ''b'' [NavigableString ''Event 1 Sprint'']],
      NavigableString [CHR 0x0A],
      Tag ''p'' [Tag ''b'' [NavigableString (''Event'' @ [CHR 0xA0] @ ''2 Sprint'')]],
      NavigableString [CHR 0x0A],
      Tag ''p'' [NavigableString ''For time:'']]"

text \<open>An intermediate option whose only line is a no-break space, before a beginner
  option.\<close>

definition nbsp_options_page :: element where
  "nbsp_options_page = Tag ''[document]''
     [Tag ''p'' [NavigableString (join [CHR 0x0A]
        [''Intermediate Option:'', [CHR 0xA0], ''Beginner Option:'', ''20 ring rows''])]]"

text \<open>A workout with a quoted comment between its lines.\<close>

definition comment_page :: element where
  "comment_page = Tag ''[document]''
     [Tag ''p'' [NavigableString (join [CHR 0x0A]
        [''For time:'', ''Bob commented on: nice'', ''21 thrusters'',
         ''Post time to comments.'', ''9 burpees''])]]"

text \<open>A page whose bold title has exactly fifty characters.\<close>

definition fifty_page :: element where
  "fifty_page = Tag ''[document]''
     [Tag ''p'' [Tag ''strong''
                   [NavigableString ''OPEN QUALIFIER WORKOUT NUMBER TWELVE FOR EVERYBODY'']],
      Tag ''p'' [NavigableString ''Complete as many rounds as possible'']]"

text \<open>A page with an uppercase bold name before a bold event title.\<close>

definition event_page :: element where
  "event_page = Tag ''[document]''
     [Tag ''p'' [Tag ''b'' [NavigableString ''AMANDA'']],
      NavigableString [CHR 0x0A],
      Tag ''p'' [Tag ''strong'' [NavigableString ''Games Event 3'']],
      NavigableString [CHR 0x0A],
      Tag ''p'' [NavigableString ''For time:'']]"

text \<open>The same two bold spans on a rest day.\<close>

definition rest_event_page :: element where
  "rest_event_page = Tag ''[document]''
     [Tag ''p'' [Tag ''b'' [NavigableString ''AMANDA'']],
      NavigableString [CHR 0x0A],
      Tag ''p'' [Tag ''strong'' [NavigableString ''Games Event 3'']],
      NavigableString [CHR 0x0A],
      Tag ''p'' [NavigableString ''Rest Day'']]"

text \<open>A workout followed by its two scaling options.\<close>

definition options_page :: element where
  "options_page = Tag ''[document]''
     [Tag ''p'' [NavigableString (join [CHR 0x0A]
        [''For time:'', ''50 pull-ups'', ''Intermediate Option:'', ''30 pull-ups'',
         ''Beginner Option:'', ''20 ring rows''])]]"

text \<open>The same page with the beginner option first.\<close>

definition reversed_options_page :: element where
  "reversed_options_page = Tag ''[document]''
     [Tag ''p'' [NavigableString (join [CHR 0x0A]
        [''For time:'', ''50 pull-ups'', ''Beginner Option:'', ''20 ring rows'',
         ''Intermediate Option:'', ''30 pull-ups''])]]"

text \<open>A rest day that lists the two options.\<close>

definition rest_options_page :: element where
  "rest_options_page = Tag ''[document]''
     [Tag ''p'' [NavigableString (join [CHR 0x0A]
        [''Rest Day'', ''Intermediate Option:'', ''30 pull-ups'',
         ''Beginner Option:'', ''20 ring rows''])]]"

section \<open>Substrings\<close>

lemma startswith_iff: "startswith s p \<longleftrightarrow> (\<exists>t. s = p @ t)"
  by (induction s p rule: startswith.induct) auto

lemma is_in_iff: "is_in n h \<longleftrightarrow> (\<exists>a b. h = a @ n @ b)"
proof (induction h)
  case Nil
  then show ?case by auto
next
  case (Cons c cs)
  show ?case
  proof
    assume "is_in n (c # cs)"
    then consider "startswith (c # cs) n" | "is_in n cs" by auto
    then show "\<exists>a b. c # cs = a @ n @ b"
    proof cases
      case 1
      then obtain t where "c # cs = n @ t" by (auto simp: startswith_iff)
      then have "c # cs = [] @ n @ t" by simp
      then show ?thesis by blast
    next
      case 2
      then obtain a b where "cs = a @ n @ b" using Cons.IH by auto
      then have "c # cs = (c # a) @ n @ b" by simp
      then show ?thesis by blast
    qed
  next
    assume "\<exists>a b. c # cs = a @ n @ b"
    then obtain a b where ab: "c # cs = a @ n @ b" by auto
    show "is_in n (c # cs)"
    proof (cases a)
      case Nil
      then have "startswith (c # cs) n" using ab by (auto simp: startswith_iff)
      then show ?thesis by simp
    next
      case (Cons x a')
      then have "cs = a' @ n @ b" using ab by simp
      then have "is_in n cs" using Cons.IH by blast
      then show ?thesis by simp
    qed
  qed
qed

lemma lower_append: "lower (a @ b) = lower a @ lower b"
  by (simp add: lower_def)

section \<open>Rest days\<close>

text \<open>
  Claim C1. Whenever the text of the page contains \<open>rest day\<close> in any letter case (a
  stretch \<open>u\<close> of the text whose lowercase form is \<open>rest day\<close>), the record is marked as a
  rest day, its description is the fixed rest-day sentence, and its movements, scaling and
  stimulus are empty, whatever else is on the page.
\<close>

theorem rest_day_record:
  assumes "get_text soup = pre @ u @ post" and "lower u = ''rest day''"
  shows "is_rest_day (extract_workout_content soup date_str)
       \<and> description (extract_workout_content soup date_str)
           = ''Rest Day - Recovery and mobility work recommended''
       \<and> movements (extract_workout_content soup date_str) = []
       \<and> scaling (extract_workout_content soup date_str) = []
       \<and> stimulus (extract_workout_content soup date_str) = []"
proof -
  have "lower (get_text soup) = lower pre @ ''rest day'' @ lower post"
    using assms by (simp add: lower_append)
  then have "is_in ''rest day'' (lower (get_text soup))"
    unfolding is_in_iff by blast
  then show ?thesis
    by (simp add: extract_workout_content_def rest_day_description_def)
qed

theorem rest_day_record_witness:
  "is_rest_day (extract_workout_content rest_page ''250704'')
   \<and> description (extract_workout_content rest_page ''250704'')
       = ''Rest Day - Recovery and mobility work recommended''
   \<and> movements (extract_workout_content rest_page ''250704'') = []
   \<and> scaling (extract_workout_content rest_page ''250704'') = []
   \<and> stimulus (extract_workout_content rest_page ''250704'') = []"
proof -
  have t: "get_text rest_page
             = ''MurphGAMES EVENT 1 '' @ ''Rest Day''
               @ ''. In memory of Lt. Murphy, who died in 2005.''"
    by (simp add: rest_page_def)
  have l: "lower ''Rest Day'' = ''rest day''"
    by code_simp
  show ?thesis
    using rest_day_record [OF t l] by simp
qed

text \<open>
  Claim C10. On a rest day the function returns before it looks for a title or for a hero
  workout: the title is the date code and the record is neither a named nor a hero workout,
  even when the page has title candidates and the signals of a hero workout.
\<close>

theorem rest_day_skips_classification:
  assumes "is_in ''rest day'' (lower (get_text soup))"
  shows "title (extract_workout_content soup date_str) = date_str
       \<and> \<not> is_named_workout (extract_workout_content soup date_str)
       \<and> \<not> is_hero_workout (extract_workout_content soup date_str)"
  using assms by (simp add: extract_workout_content_def)

theorem rest_day_skips_classification_witness:
  "is_in ''rest day'' (lower (get_text rest_page))
   \<and> title (extract_workout_content rest_page ''250704'') = ''250704''
   \<and> \<not> is_named_workout (extract_workout_content rest_page ''250704'')
   \<and> \<not> is_hero_workout (extract_workout_content rest_page ''250704'')"
proof -
  have h: "is_in ''rest day'' (lower (get_text rest_page))"
    by code_simp
  show ?thesis
    using h rest_day_skips_classification [OF h, of "''250704''"] by simp
qed

section \<open>Hero workouts\<close>

text \<open>
  Claim C2. On a page that is not a rest day, the record is a hero workout exactly when the
  lowercase text of the page has one of the military ranks, has one of the memorial phrases,
  and has none of the three phrases that only refer to a hero workout; so such a phrase makes
  it false even when a rank and a memorial phrase are there.
\<close>

theorem hero_rule:
  assumes "\<not> is_in ''rest day'' (lower (get_text soup))"
  shows "is_hero_workout (extract_workout_content soup date_str) \<longleftrightarrow>
      any_in [''lt.'', ''lieutenant'', ''sgt.'', ''sergeant'', ''cpl.'', ''corporal'',
              ''pfc.'', ''private'', ''captain'', ''major'', ''colonel'']
             (lower (get_text soup))
    \<and> any_in [''fallen'', ''killed in action'', ''kia'', ''memorial'', ''died'',
              ''gave his life'', ''gave her life''] (lower (get_text soup))
    \<and> \<not> any_in [''reminiscent of a hero workout'', ''similar to'', ''like the hero workout'']
               (lower (get_text soup))"
proof -
  have r: "any_in [''reminiscent of a hero workout'', ''similar to'', ''like the hero workout''] t
        \<longleftrightarrow> is_in ''reminiscent of a hero workout'' t \<or> is_in ''similar to'' t
            \<or> is_in ''like the hero workout'' t" for t
    by (simp add: any_in_def)
  show ?thesis
    using assms unfolding r
    by (simp add: extract_workout_content_def Let_def hero_indicators_def hero_phrases_def)
qed

theorem hero_rule_witness:
  "\<not> is_in ''rest day'' (lower (get_text hero_page))
   \<and> is_hero_workout (extract_workout_content hero_page ''250526'')"
proof -
  have h: "\<not> is_in ''rest day'' (lower (get_text hero_page))"
    by code_simp
  have a: "any_in [''lt.'', ''lieutenant'', ''sgt.'', ''sergeant'', ''cpl.'', ''corporal'',
              ''pfc.'', ''private'', ''captain'', ''major'', ''colonel'']
             (lower (get_text hero_page))"
    by code_simp
  have b: "any_in [''fallen'', ''killed in action'', ''kia'', ''memorial'', ''died'',
              ''gave his life'', ''gave her life''] (lower (get_text hero_page))"
    by code_simp
  have c: "\<not> any_in [''reminiscent of a hero workout'', ''similar to'',
                     ''like the hero workout''] (lower (get_text hero_page))"
    by code_simp
  show ?thesis
    using h a b c hero_rule [OF h, of "''250526''"] by blast
qed

text \<open>
  Claim C9. A record that is a hero workout is a named workout: the branch that sets the
  first flag sets the second.
\<close>

theorem hero_is_named:
  "is_hero_workout (extract_workout_content soup date_str)
     \<longrightarrow> is_named_workout (extract_workout_content soup date_str)"
  by (simp add: extract_workout_content_def Let_def)

theorem hero_is_named_witness:
  "is_hero_workout (extract_workout_content hero_page ''250526'')
   \<and> is_named_workout (extract_workout_content hero_page ''250526'')"
proof -
  have h: "is_hero_workout (extract_workout_content hero_page ''250526'')"
    by code_simp
  show ?thesis
    using h hero_is_named [of hero_page "''250526''"] by blast
qed

section \<open>Movements\<close>

lemma fromkeys_loop_snoc:
  "fromkeys_loop keys (xs @ [x]) =
     (if x \<in> set (fromkeys_loop keys xs) then fromkeys_loop keys xs
      else fromkeys_loop keys xs @ [x])"
  by (induction xs arbitrary: keys) auto

lemma set_fromkeys_loop: "set (fromkeys_loop keys xs) = set keys \<union> set xs"
  by (induction xs arbitrary: keys) auto

lemma distinct_fromkeys_loop: "distinct keys \<Longrightarrow> distinct (fromkeys_loop keys xs)"
  by (induction xs arbitrary: keys) auto

lemma first_occurrences_snoc:
  "first_occurrences (xs @ [x]) = first_occurrences xs @ (if x \<in> set xs then [] else [x])"
proof -
  have f: "filter (\<lambda>i. (xs @ [x]) ! i \<notin> set (take i (xs @ [x]))) [0 ..< length xs]
         = filter (\<lambda>i. xs ! i \<notin> set (take i xs)) [0 ..< length xs]"
    by (rule filter_cong) (auto simp: nth_append)
  have m: "map (nth (xs @ [x])) (filter (\<lambda>i. xs ! i \<notin> set (take i xs)) [0 ..< length xs])
         = map (nth xs) (filter (\<lambda>i. xs ! i \<notin> set (take i xs)) [0 ..< length xs])"
    by (rule map_cong) (auto simp: nth_append)
  have "first_occurrences (xs @ [x])
          = map (nth (xs @ [x]))
              (filter (\<lambda>i. (xs @ [x]) ! i \<notin> set (take i (xs @ [x]))) [0 ..< length xs])
            @ (if x \<in> set xs then [] else [x])"
    unfolding first_occurrences_def by simp
  also have "\<dots> = first_occurrences xs @ (if x \<in> set xs then [] else [x])"
    unfolding f m first_occurrences_def by (rule refl)
  finally show ?thesis .
qed

lemma dict_fromkeys_first_occurrences: "dict_fromkeys xs = first_occurrences xs"
proof (induction xs rule: rev_induct)
  case Nil
  then show ?case by (simp add: dict_fromkeys_def first_occurrences_def)
next
  case (snoc x xs)
  have "set (dict_fromkeys xs) = set xs"
    by (simp add: dict_fromkeys_def set_fromkeys_loop)
  with snoc show ?case
    by (simp add: first_occurrences_snoc) (simp add: dict_fromkeys_def fromkeys_loop_snoc)
qed

lemma distinct_dict_fromkeys: "distinct (dict_fromkeys xs)"
  by (simp add: dict_fromkeys_def distinct_fromkeys_loop)

text \<open>
  Claim C3. The movements of every record are at most eight, pairwise different, and they are
  the first eight of the first occurrences of the movement strings found in the collected
  lines, in the order in which those were found (on a rest day nothing is collected).
\<close>

theorem movements_bounded_distinct_ordered:
  "length (movements (extract_workout_content soup date_str)) \<le> 8
   \<and> distinct (movements (extract_workout_content soup date_str))
   \<and> movements (extract_workout_content soup date_str)
       = take 8 (first_occurrences
           (if is_in ''rest day'' (lower (get_text soup)) then []
            else concat (map line_movements
                   (workout_loop False [] (split_nl (get_text soup))))))"
proof -
  have m: "movements (extract_workout_content soup date_str)
       = take 8 (dict_fromkeys
           (if is_in ''rest day'' (lower (get_text soup)) then []
            else concat (map line_movements
                   (workout_loop False [] (split_nl (get_text soup))))))"
    by (simp add: extract_workout_content_def Let_def dict_fromkeys_def)
  have d: "distinct (take 8 (dict_fromkeys ys))" for ys :: "string list"
    by (rule distinct_take) (rule distinct_dict_fromkeys)
  show ?thesis
    unfolding m using d by (simp add: dict_fromkeys_first_occurrences)
qed

theorem movements_bounded_distinct_ordered_witness:
  "movements (extract_workout_content movements_page ''250101'')
     = [''400-meter run'', ''21 thrusters'', ''15 pull-ups'', ''9 burpees'',
        ''50 double-unders'', ''30 sit-ups'', ''20 lunges'', ''10 push-ups'']
   \<and> length (movements (extract_workout_content movements_page ''250101'')) \<le> 8
   \<and> distinct (movements (extract_workout_content movements_page ''250101''))
   \<and> movements (extract_workout_content nbsp_page ''250101'') = [''21 thrusters'', ''15 pull-ups'']"
proof -
  have v: "movements (extract_workout_content movements_page ''250101'')
     = [''400-meter run'', ''21 thrusters'', ''15 pull-ups'', ''9 burpees'',
        ''50 double-unders'', ''30 sit-ups'', ''20 lunges'', ''10 push-ups'']"
    by code_simp
  have r: "\<not> is_in ''rest day'' (lower (get_text nbsp_page))"
    by code_simp
  have f: "take 8 (first_occurrences
             (concat (map line_movements (workout_loop False [] (split_nl (get_text nbsp_page))))))
           = [''21 thrusters'', ''15 pull-ups'']"
    by code_simp
  have n: "movements (extract_workout_content nbsp_page ''250101'')
             = [''21 thrusters'', ''15 pull-ups'']"
    using movements_bounded_distinct_ordered [of nbsp_page "''250101''"] r f by simp
  show ?thesis
    using v n movements_bounded_distinct_ordered [of movements_page "''250101''"] by blast
qed

section \<open>The workout body\<close>

lemma workout_loop_char:
  "workout_loop found acc ls =
     acc @ filter (\<lambda>l. \<not> startswith l ''**'')
            (takeWhile (\<lambda>l. \<not> any_in section_markers (lower l))
              ((if found then (\<lambda>x. x) else dropWhile (\<lambda>l. \<not> any_in start_indicators (lower l)))
                (filter (\<lambda>l. l \<noteq> [] \<and> \<not> is_in ''commented on:'' (lower l)) (map strip ls))))"
  by (induction ls arbitrary: found acc) (auto simp: Let_def)

text \<open>
  Claim C5, as the code has it. The collected body is made of the stripped lines of the page
  that are neither empty nor contain \<open>commented on:\<close>: of these, the ones from the first
  line with a start indicator up to, and without, the first line with a terminating marker,
  less the lines that start with \<open>**\<close>. So a terminator ends the collection, and after the
  first indicator a line is dropped only when it is empty, quotes a comment or starts
  with \<open>**\<close>.
\<close>

theorem body_collection:
  "workout_loop False [] lines =
     filter (\<lambda>l. \<not> startswith l ''**'')
       (takeWhile (\<lambda>l. \<not> any_in [''stimulus'', ''scaling'', ''intermediate option'',
                                   ''beginner option'', ''coaching'', ''resources'', ''comments'',
                                   ''post time''] (lower l))
         (dropWhile (\<lambda>l. \<not> any_in [''for time:'', ''amrap'', ''emom'', ''rounds for time:'',
                                     ''complete:''] (lower l))
           (filter (\<lambda>l. l \<noteq> [] \<and> \<not> is_in ''commented on:'' (lower l))
             (map strip lines))))"
  unfolding workout_loop_char section_markers_def start_indicators_def by simp

theorem body_collection_witness:
  "workout_loop False []
      [''For time:'', ''Bob commented on: nice'', ''21 thrusters'', ''Post time to comments.'',
       ''9 burpees'']
   = [''For time:'', ''21 thrusters'']
   \<and> workout_loop False [] [''For time:'', [CHR 0xA0], ''21 thrusters'' @ [CHR 0xA0]]
       = [''For time:'', ''21 thrusters'']"
proof -
  have e: "filter (\<lambda>l. \<not> startswith l ''**'')
      (takeWhile (\<lambda>l. \<not> any_in [''stimulus'', ''scaling'', ''intermediate option'',
                                  ''beginner option'', ''coaching'', ''resources'', ''comments'',
                                  ''post time''] (lower l))
        (dropWhile (\<lambda>l. \<not> any_in [''for time:'', ''amrap'', ''emom'', ''rounds for time:'',
                                    ''complete:''] (lower l))
          (filter (\<lambda>l. l \<noteq> [] \<and> \<not> is_in ''commented on:'' (lower l))
            (map strip [''For time:'', ''Bob commented on: nice'', ''21 thrusters'',
                        ''Post time to comments.'', ''9 burpees'']))))
     = [''For time:'', ''21 thrusters'']"
    by code_simp
  have f: "filter (\<lambda>l. \<not> startswith l ''**'')
      (takeWhile (\<lambda>l. \<not> any_in [''stimulus'', ''scaling'', ''intermediate option'',
                                  ''beginner option'', ''coaching'', ''resources'', ''comments'',
                                  ''post time''] (lower l))
        (dropWhile (\<lambda>l. \<not> any_in [''for time:'', ''amrap'', ''emom'', ''rounds for time:'',
                                    ''complete:''] (lower l))
          (filter (\<lambda>l. l \<noteq> [] \<and> \<not> is_in ''commented on:'' (lower l))
            (map strip [''For time:'', [CHR 0xA0], ''21 thrusters'' @ [CHR 0xA0]]))))
     = [''For time:'', ''21 thrusters'']"
    by code_simp
  have 1: "workout_loop False []
      [''For time:'', ''Bob commented on: nice'', ''21 thrusters'', ''Post time to comments.'',
       ''9 burpees'']
   = [''For time:'', ''21 thrusters'']"
    by (rule trans [OF body_collection e])
  have 2: "workout_loop False [] [''For time:'', [CHR 0xA0], ''21 thrusters'' @ [CHR 0xA0]]
       = [''For time:'', ''21 thrusters'']"
    by (rule trans [OF body_collection f])
  show ?thesis
    using 1 2 by (rule conjI)
qed

text \<open>The claim leaves out the lines with \<open>commented on:\<close>: the second line here comes
  after the indicator, is not empty, does not start with \<open>**\<close> and has no terminating marker,
  and it is not in the body.\<close>

theorem body_collection_counterexample:
  "split_nl (get_text comment_page)
     = [''For time:'', ''Bob commented on: nice'', ''21 thrusters'', ''Post time to comments.'',
        ''9 burpees'']
   \<and> \<not> startswith ''Bob commented on: nice'' ''**''
   \<and> \<not> any_in [''stimulus'', ''scaling'', ''intermediate option'', ''beginner option'',
               ''coaching'', ''resources'', ''comments'', ''post time'']
              (lower ''Bob commented on: nice'')
   \<and> workout_loop False [] (split_nl (get_text comment_page)) = [''For time:'', ''21 thrusters'']
   \<and> description (extract_workout_content comment_page ''250101'')
       = join [CHR 0x0A] [''For time:'', ''21 thrusters'']"
  by code_simp

lemma split_nl_no_newline: "l \<in> set (split_nl s) \<Longrightarrow> CHR 0x0A \<notin> set l"
  by (induction s arbitrary: l) (auto split: if_splits list.splits)

lemma split_nl_single: "CHR 0x0A \<notin> set x \<Longrightarrow> split_nl x = [x]"
  by (induction x) auto

lemma split_nl_append: "CHR 0x0A \<notin> set x \<Longrightarrow> split_nl (x @ CHR 0x0A # r) = x # split_nl r"
  by (induction x) auto

lemma split_nl_join:
  "xs \<noteq> [] \<Longrightarrow> \<forall>x\<in>set xs. CHR 0x0A \<notin> set x \<Longrightarrow> split_nl (join [CHR 0x0A] xs) = xs"
  by (induction "[CHR 0x0A]" xs rule: join.induct) (auto simp: split_nl_single split_nl_append)

lemma strip_decomp: "\<exists>a b. l = a @ strip l @ b"
proof -
  define m where "m = dropWhile ch_isspace l"
  have 1: "l = takeWhile ch_isspace l @ m"
    by (simp add: m_def)
  have "rev m = takeWhile ch_isspace (rev m) @ dropWhile ch_isspace (rev m)"
    by simp
  then have "rev (rev m) = rev (takeWhile ch_isspace (rev m) @ dropWhile ch_isspace (rev m))"
    by (rule arg_cong)
  then have 2: "m = strip l @ rev (takeWhile ch_isspace (rev m))"
    unfolding rev_append rev_rev_ident strip_def m_def .
  have "l = takeWhile ch_isspace l @ strip l @ rev (takeWhile ch_isspace (rev m))"
    using 1 2 by simp
  then show ?thesis by blast
qed

lemma set_strip: "set (strip l) \<subseteq> set l"
proof -
  obtain a b where "l = a @ strip l @ b" using strip_decomp by blast
  then have "set l = set a \<union> set (strip l) \<union> set b" by (metis set_append Un_assoc)
  then show ?thesis by blast
qed

lemma is_in_strip: "is_in p (lower (strip l)) \<Longrightarrow> is_in p (lower l)"
proof -
  assume "is_in p (lower (strip l))"
  then obtain c d where cd: "lower (strip l) = c @ p @ d" unfolding is_in_iff by blast
  obtain a b where "l = a @ strip l @ b" using strip_decomp by blast
  then have "lower l = lower a @ lower (strip l) @ lower b"
    by (metis lower_append)
  then have "lower l = (lower a @ c) @ p @ (d @ lower b)" using cd by simp
  then show ?thesis unfolding is_in_iff by blast
qed

lemma any_in_strip: "any_in ps (lower (strip l)) \<Longrightarrow> any_in ps (lower l)"
  unfolding any_in_def list_ex_iff using is_in_strip by blast

lemma workout_loop_lines:
  "set (workout_loop found acc ls) \<subseteq> set acc \<union> strip ` set ls"
  unfolding workout_loop_char
  by (auto dest!: set_takeWhileD split: if_splits dest: set_dropWhileD)

lemma workout_loop_no_start:
  assumes "\<forall>l\<in>set ls. \<not> any_in start_indicators (lower l)"
  shows "workout_loop False [] ls = []"
proof -
  have "\<forall>l\<in>set (filter (\<lambda>l. l \<noteq> [] \<and> \<not> is_in ''commented on:'' (lower l)) (map strip ls)).
          \<not> any_in start_indicators (lower l)"
    using assms any_in_strip by auto
  then have "dropWhile (\<lambda>l. \<not> any_in start_indicators (lower l))
               (filter (\<lambda>l. l \<noteq> [] \<and> \<not> is_in ''commented on:'' (lower l)) (map strip ls)) = []"
    by (simp add: dropWhile_eq_Nil_conv)
  then show ?thesis
    unfolding workout_loop_char by (simp del: dropWhile_eq_Nil_conv)
qed

lemma description_eq:
  "description (extract_workout_content soup date_str) =
     (if is_in ''rest day'' (lower (get_text soup)) then rest_day_description
      else join [CHR 0x0A] (take 10 (workout_loop False [] (split_nl (get_text soup)))))"
  by (simp add: extract_workout_content_def Let_def)

lemma split_nl_joined_lines:
  assumes "\<forall>x\<in>set xs. CHR 0x0A \<notin> set x"
  shows "length (split_nl (join [CHR 0x0A] (take 10 xs))) \<le> 10"
proof (cases "take 10 xs = []")
  case True
  then show ?thesis by simp
next
  case False
  have "\<forall>x\<in>set (take 10 xs). CHR 0x0A \<notin> set x"
    using assms by (meson in_set_takeD)
  then have "split_nl (join [CHR 0x0A] (take 10 xs)) = take 10 xs"
    using False by (rule split_nl_join[rotated])
  then show ?thesis by simp
qed

text \<open>
  Claim C4, as the code has it. The description of every record has at most ten lines. On a
  rest day it is the fixed rest-day sentence, whether or not a start indicator is on the
  page. When the page is not a rest day it is the first ten collected lines joined by line
  feeds, and it is empty when no line of the page has a start indicator.
\<close>

theorem description_at_most_ten_lines:
  "length (split_nl (description (extract_workout_content soup date_str))) \<le> 10
   \<and> (is_in ''rest day'' (lower (get_text soup)) \<longrightarrow>
        description (extract_workout_content soup date_str)
          = ''Rest Day - Recovery and mobility work recommended'')
   \<and> (\<not> is_in ''rest day'' (lower (get_text soup)) \<longrightarrow>
        description (extract_workout_content soup date_str)
          = join [CHR 0x0A] (take 10 (workout_loop False [] (split_nl (get_text soup))))
        \<and> ((\<forall>l\<in>set (split_nl (get_text soup)).
               \<not> any_in [''for time:'', ''amrap'', ''emom'', ''rounds for time:'', ''complete:'']
                        (lower l))
             \<longrightarrow> description (extract_workout_content soup date_str) = []))"
proof -
  have lines: "\<forall>x\<in>set (workout_loop False [] (split_nl (get_text soup))). CHR 0x0A \<notin> set x"
  proof
    fix x assume "x \<in> set (workout_loop False [] (split_nl (get_text soup)))"
    then obtain l where l: "l \<in> set (split_nl (get_text soup))" and x: "x = strip l"
      using workout_loop_lines[of False "[]" "split_nl (get_text soup)"] by auto
    have "CHR 0x0A \<notin> set l" using l by (rule split_nl_no_newline)
    then show "CHR 0x0A \<notin> set x" using x set_strip[of l] by blast
  qed
  have rest: "length (split_nl rest_day_description) \<le> 10"
    by code_simp
  have 1: "length (split_nl (description (extract_workout_content soup date_str))) \<le> 10"
    unfolding description_eq using rest split_nl_joined_lines[OF lines] by simp
  have 2: "description (extract_workout_content soup date_str) = []"
    if "\<not> is_in ''rest day'' (lower (get_text soup))"
      and "\<forall>l\<in>set (split_nl (get_text soup)).
               \<not> any_in [''for time:'', ''amrap'', ''emom'', ''rounds for time:'', ''complete:'']
                        (lower l)"
    using that workout_loop_no_start[of "split_nl (get_text soup)"]
    unfolding description_eq by (simp add: start_indicators_def)
  have 3: "description (extract_workout_content soup date_str)
             = ''Rest Day - Recovery and mobility work recommended''"
    if "is_in ''rest day'' (lower (get_text soup))"
    using that by (simp add: description_eq rest_day_description_def)
  have 4: "description (extract_workout_content soup date_str)
             = join [CHR 0x0A] (take 10 (workout_loop False [] (split_nl (get_text soup))))"
    if "\<not> is_in ''rest day'' (lower (get_text soup))"
    using that by (simp add: description_eq)
  show ?thesis
    using 1 2 3 4 by blast
qed

theorem description_at_most_ten_lines_witness:
  "is_in ''rest day'' (lower (get_text rest_page))
   \<and> description (extract_workout_content rest_page ''250704'')
       = ''Rest Day - Recovery and mobility work recommended''
   \<and> \<not> is_in ''rest day'' (lower (get_text nbsp_page))
   \<and> description (extract_workout_content nbsp_page ''250101'')
       = join [CHR 0x0A] [''For time:'', ''21 thrusters'', ''15'' @ [CHR 0xA0] @ ''pull-ups'']
   \<and> \<not> is_in ''rest day'' (lower (get_text hero_page))
   \<and> list_all (\<lambda>l. \<not> any_in [''for time:'', ''amrap'', ''emom'', ''rounds for time:'',
                               ''complete:''] (lower l))
        (split_nl (get_text hero_page))
   \<and> description (extract_workout_content hero_page ''250526'') = []
   \<and> length (split_nl (description (extract_workout_content movements_page ''250101''))) \<le> 10"
proof -
  have r: "is_in ''rest day'' (lower (get_text rest_page))"
    by code_simp
  have k: "\<not> is_in ''rest day'' (lower (get_text nbsp_page))"
    by code_simp
  have w: "join [CHR 0x0A] (take 10 (workout_loop False [] (split_nl (get_text nbsp_page))))
             = join [CHR 0x0A] [''For time:'', ''21 thrusters'', ''15'' @ [CHR 0xA0] @ ''pull-ups'']"
    by code_simp
  have d: "description (extract_workout_content nbsp_page ''250101'')
       = join [CHR 0x0A] [''For time:'', ''21 thrusters'', ''15'' @ [CHR 0xA0] @ ''pull-ups'']"
    using k description_at_most_ten_lines [of nbsp_page "''250101''"] unfolding w by blast
  have h: "\<not> is_in ''rest day'' (lower (get_text hero_page))"
    by code_simp
  have n: "list_all (\<lambda>l. \<not> any_in [''for time:'', ''amrap'', ''emom'', ''rounds for time:'',
                               ''complete:''] (lower l))
        (split_nl (get_text hero_page))"
    by code_simp
  then have b: "\<forall>l\<in>set (split_nl (get_text hero_page)).
            \<not> any_in [''for time:'', ''amrap'', ''emom'', ''rounds for time:'', ''complete:'']
                     (lower l)"
    by (simp add: list_all_iff)
  show ?thesis
    using r k d h n b description_at_most_ten_lines [of hero_page "''250526''"]
      description_at_most_ten_lines [of movements_page "''250101''"]
      description_at_most_ten_lines [of rest_page "''250704''"]
    by blast
qed

text \<open>On a rest day no line has a start indicator and the description is the rest-day
  sentence, not the empty string.\<close>

theorem description_empty_counterexample:
  "\<not> any_in [''for time:'', ''amrap'', ''emom'', ''rounds for time:'', ''complete:'']
             (lower (get_text rest_page))
   \<and> description (extract_workout_content rest_page ''250704'')
       = ''Rest Day - Recovery and mobility work recommended''"
  by code_simp

section \<open>Titles\<close>

text \<open>
  Claim C6, as the code has it. A bold span is taken as a title candidate only if its stripped
  text has more than 5 and at most 50 characters and none of the promotional phrases; a span
  of 5 characters or fewer, of more than 50, or with such a phrase leaves the candidates as
  they were.
\<close>

theorem bold_admission:
  "bold_step potential_titles bold \<noteq> potential_titles \<Longrightarrow>
     5 < length (strip (get_text bold)) \<and> length (strip (get_text bold)) \<le> 50
     \<and> \<not> any_in [''watch now'', ''are live'', ''shop'', ''buy'', ''sale'', ''click here'',
                 ''subscribe''] (lower (strip (get_text bold)))"
  by (auto simp: bold_step_def Let_def skip_phrases_def split: if_splits)

theorem bold_admission_witness:
  "bold_step [] (Tag ''strong'' [NavigableString ''Games Event 3'']) = [''Games Event 3'']
   \<and> 5 < length (strip (get_text (Tag ''strong'' [NavigableString ''Games Event 3''])))
   \<and> length (strip (get_text (Tag ''strong'' [NavigableString ''Games Event 3'']))) \<le> 50
   \<and> bold_step [] (Tag ''b'' [NavigableString ([CHR 0xA0] @ ''GRACE'')]) = []
   \<and> bold_step [] (Tag ''b'' [NavigableString (''AMANDA '' @ [CHR 0xE9])]) = []"
proof -
  have v: "bold_step [] (Tag ''strong'' [NavigableString ''Games Event 3'']) = [''Games Event 3'']"
    by code_simp
  then have "bold_step [] (Tag ''strong'' [NavigableString ''Games Event 3'']) \<noteq> []"
    by simp
  from v bold_admission [OF this]
  have 1: "bold_step [] (Tag ''strong'' [NavigableString ''Games Event 3'']) = [''Games Event 3'']
   \<and> 5 < length (strip (get_text (Tag ''strong'' [NavigableString ''Games Event 3''])))
   \<and> length (strip (get_text (Tag ''strong'' [NavigableString ''Games Event 3'']))) \<le> 50"
    by blast
  have 2: "bold_step [] (Tag ''b'' [NavigableString ([CHR 0xA0] @ ''GRACE'')]) = []"
    by code_simp
  have 3: "bold_step [] (Tag ''b'' [NavigableString (''AMANDA '' @ [CHR 0xE9])]) = []"
    by code_simp
  show ?thesis
    using 1 2 3 by blast
qed

text \<open>A bold span of exactly fifty characters is taken, and becomes the title.\<close>

theorem bold_length_fifty_counterexample:
  "length ''OPEN QUALIFIER WORKOUT NUMBER TWELVE FOR EVERYBODY'' = 50
   \<and> bold_step [] (Tag ''strong''
                     [NavigableString ''OPEN QUALIFIER WORKOUT NUMBER TWELVE FOR EVERYBODY''])
       = [''OPEN QUALIFIER WORKOUT NUMBER TWELVE FOR EVERYBODY'']
   \<and> bold_step [] (Tag ''strong''
                     [NavigableString (''OPEN QUALIFIER WORKOUT NUMBER TWELVE FOR EVERYBODY''
                                       @ [CHR 0xA0])])
       = [''OPEN QUALIFIER WORKOUT NUMBER TWELVE FOR EVERYBODY'']
   \<and> title (extract_workout_content fifty_page ''250101'')
       = ''OPEN QUALIFIER WORKOUT NUMBER TWELVE FOR EVERYBODY''"
  by code_simp

lemma bold_step_event:
  "event_candidate b \<Longrightarrow> bold_step pts b = strip (get_text b) # pts"
  by (auto simp: bold_step_def event_candidate_def Let_def)

lemma bold_step_other:
  "\<not> event_candidate b \<Longrightarrow> bold_step pts b = pts \<or> bold_step pts b = pts @ [strip (get_text b)]"
  by (auto simp: bold_step_def event_candidate_def Let_def)

lemma bold_titles_front:
  "filter event_candidate bs \<noteq> [] \<Longrightarrow>
     foldl bold_step pts bs \<noteq> []
     \<and> hd (foldl bold_step pts bs) = strip (get_text (last (filter event_candidate bs)))"
proof (induction bs rule: rev_induct)
  case Nil
  then show ?case by simp
next
  case (snoc b bs)
  show ?case
  proof (cases "event_candidate b")
    case True
    then show ?thesis by (simp add: bold_step_event)
  next
    case False
    then have f: "filter event_candidate bs \<noteq> []" using snoc.prems by simp
    from bold_step_other[OF False, of "foldl bold_step pts bs"] snoc.IH[OF f] False
    show ?thesis by auto
  qed
qed

lemma heading_step_front:
  "pts \<noteq> [] \<Longrightarrow> heading_step pts h \<noteq> [] \<and> hd (heading_step pts h) = hd pts"
  by (auto simp: heading_step_def Let_def)

lemma heading_titles_front:
  "pts \<noteq> [] \<Longrightarrow> foldl heading_step pts hs \<noteq> [] \<and> hd (foldl heading_step pts hs) = hd pts"
proof (induction hs arbitrary: pts)
  case Nil
  then show ?case by simp
next
  case (Cons h hs)
  from heading_step_front[OF Cons.prems, of h] Cons.IH[of "heading_step pts h"]
  show ?case by simp
qed

lemma title_eq:
  "\<not> is_in ''rest day'' (lower (get_text soup)) \<Longrightarrow>
   title (extract_workout_content soup date_str) =
     (if find_titles soup \<noteq> [] then hd (find_titles soup) else date_str)"
  by (simp add: extract_workout_content_def Let_def)

lemma named_if_title:
  "\<not> is_in ''rest day'' (lower (get_text soup)) \<Longrightarrow> find_titles soup \<noteq> [] \<Longrightarrow>
   is_named_workout (extract_workout_content soup date_str)"
  by (simp add: extract_workout_content_def Let_def)

lemma event_title_not_rest:
  assumes "\<not> is_in ''rest day'' (lower (get_text soup))"
    and "filter event_candidate (find_all [''strong'', ''b''] soup) \<noteq> []"
  shows "title (extract_workout_content soup date_str)
           = strip (get_text (last (filter event_candidate (find_all [''strong'', ''b''] soup))))
       \<and> re_search event_pattern (lower (title (extract_workout_content soup date_str)))
       \<and> is_named_workout (extract_workout_content soup date_str)"
proof -
  let ?bs = "find_all [''strong'', ''b''] soup"
  have b: "foldl bold_step [] ?bs \<noteq> []
       \<and> hd (foldl bold_step [] ?bs) = strip (get_text (last (filter event_candidate ?bs)))"
    using assms(2) by (rule bold_titles_front)
  then have t: "find_titles soup \<noteq> []
       \<and> hd (find_titles soup) = strip (get_text (last (filter event_candidate ?bs)))"
    unfolding find_titles_def using heading_titles_front[of "foldl bold_step [] ?bs"] by simp
  have "last (filter event_candidate ?bs) \<in> set (filter event_candidate ?bs)"
    using assms(2) by (rule last_in_set)
  then have e: "event_candidate (last (filter event_candidate ?bs))" by simp
  have 1: "title (extract_workout_content soup date_str)
           = strip (get_text (last (filter event_candidate ?bs)))"
    using t by (simp add: title_eq[OF assms(1)])
  have 2: "re_search event_pattern (lower (title (extract_workout_content soup date_str)))"
    unfolding 1 using e by (simp add: event_candidate_def Let_def)
  have 3: "is_named_workout (extract_workout_content soup date_str)"
    using assms(1) t by (simp add: named_if_title)
  show ?thesis using 1 2 3 by simp
qed

text \<open>
  Claim C7, as the code has it. On a page that is not a rest day and has a bold candidate that
  matches \<open>event\s+\d+\<close>, the title is the text of the last such candidate, whatever other
  candidates the page has (a fully uppercase one among them), and the record is a named
  workout. On a rest day the title is the date code.
\<close>

theorem event_title_first:
  "(\<not> is_in ''rest day'' (lower (get_text soup))
    \<and> filter event_candidate (find_all [''strong'', ''b''] soup) \<noteq> [] \<longrightarrow>
      title (extract_workout_content soup date_str)
        = strip (get_text (last (filter event_candidate (find_all [''strong'', ''b''] soup))))
      \<and> re_search event_pattern (lower (title (extract_workout_content soup date_str)))
      \<and> is_named_workout (extract_workout_content soup date_str))
   \<and> (is_in ''rest day'' (lower (get_text soup)) \<longrightarrow>
        title (extract_workout_content soup date_str) = date_str)"
proof -
  have "title (extract_workout_content soup date_str) = date_str"
    if "is_in ''rest day'' (lower (get_text soup))"
    using that by (simp add: extract_workout_content_def)
  then show ?thesis
    using event_title_not_rest [of soup date_str] by blast
qed

theorem event_title_first_witness:
  "\<not> is_in ''rest day'' (lower (get_text event_page))
   \<and> find_all [''strong'', ''b''] event_page
       = [Tag ''b'' [NavigableString ''AMANDA''], Tag ''strong'' [NavigableString ''Games Event 3'']]
   \<and> bold_step [] (Tag ''b'' [NavigableString ''AMANDA'']) = [''AMANDA'']
   \<and> title (extract_workout_content event_page ''250801'') = ''Games Event 3''
   \<and> is_named_workout (extract_workout_content event_page ''250801'')
   \<and> \<not> is_in ''rest day'' (lower (get_text nbsp_event_page))
   \<and> title (extract_workout_content nbsp_event_page ''250802'')
       = ''Event'' @ [CHR 0xA0] @ ''2 Sprint''
   \<and> is_in ''rest day'' (lower (get_text rest_event_page))
   \<and> title (extract_workout_content rest_event_page ''250704'') = ''250704''"
proof -
  have h: "\<not> is_in ''rest day'' (lower (get_text event_page))"
    by code_simp
  have f: "find_all [''strong'', ''b''] event_page
       = [Tag ''b'' [NavigableString ''AMANDA''], Tag ''strong'' [NavigableString ''Games Event 3'']]"
    by code_simp
  have a: "bold_step [] (Tag ''b'' [NavigableString ''AMANDA'']) = [''AMANDA'']"
    by code_simp
  have c: "filter event_candidate (find_all [''strong'', ''b''] event_page)
             = [Tag ''strong'' [NavigableString ''Games Event 3'']]"
    by code_simp
  then have n: "filter event_candidate (find_all [''strong'', ''b''] event_page) \<noteq> []"
    by simp
  have s: "strip (get_text (last [Tag ''strong'' [NavigableString ''Games Event 3'']]))
             = ''Games Event 3''"
    by code_simp
  have t: "title (extract_workout_content event_page ''250801'') = ''Games Event 3''"
    using h n event_title_first [of event_page "''250801''"] unfolding c s by blast
  have m: "is_named_workout (extract_workout_content event_page ''250801'')"
    using h n event_title_first [of event_page "''250801''"] by blast
  have h2: "\<not> is_in ''rest day'' (lower (get_text nbsp_event_page))"
    by code_simp
  have c2: "filter event_candidate (find_all [''strong'', ''b''] nbsp_event_page)
             = [Tag ''b'' [NavigableString ''Event 1 Sprint''],
                Tag ''b'' [NavigableString (''Event'' @ [CHR 0xA0] @ ''2 Sprint'')]]"
    by code_simp
  then have n2: "filter event_candidate (find_all [''strong'', ''b''] nbsp_event_page) \<noteq> []"
    by simp
  have s2: "strip (get_text (last [Tag ''b'' [NavigableString ''Event 1 Sprint''],
                Tag ''b'' [NavigableString (''Event'' @ [CHR 0xA0] @ ''2 Sprint'')]]))
             = ''Event'' @ [CHR 0xA0] @ ''2 Sprint''"
    by code_simp
  have t2: "title (extract_workout_content nbsp_event_page ''250802'')
              = ''Event'' @ [CHR 0xA0] @ ''2 Sprint''"
    using h2 n2 event_title_first [of nbsp_event_page "''250802''"] unfolding c2 s2 by blast
  have r: "is_in ''rest day'' (lower (get_text rest_event_page))"
    by code_simp
  have t3: "title (extract_workout_content rest_event_page ''250704'') = ''250704''"
    using r event_title_first [of rest_event_page "''250704''"] by blast
  show ?thesis
    using h f a t m h2 t2 r t3 by blast
qed

text \<open>On a rest day the two bold candidates are never looked at: the title is the date
  code.\<close>

theorem event_title_rest_day_counterexample:
  "find_all [''strong'', ''b''] rest_event_page
     = [Tag ''b'' [NavigableString ''AMANDA''], Tag ''strong'' [NavigableString ''Games Event 3'']]
   \<and> bold_step [] (Tag ''b'' [NavigableString ''AMANDA'']) = [''AMANDA'']
   \<and> event_candidate (Tag ''strong'' [NavigableString ''Games Event 3''])
   \<and> title (extract_workout_content rest_event_page ''250704'') = ''250704''"
  by code_simp

section \<open>Scaling\<close>

lemma option_loop_append:
  "option_loop ot (a @ b) ls = a @ option_loop ot b ls"
  by (induction ls arbitrary: b) (auto simp: Let_def)

lemma option_loop_parts: "option_loop ot parts ls = parts @ option_loop ot [] ls"
  using option_loop_append[of ot parts "[]" ls] by simp

lemma option_loop_block:
  "i < length ls \<Longrightarrow> is_in ot (lower (ls ! i)) \<Longrightarrow> 1 < length (option_block ls i) \<Longrightarrow>
     \<exists>pre post. option_loop ot [] ls = pre @ [join [CHR 0x0A] (option_block ls i)] @ post"
proof (induction ls arbitrary: i)
  case Nil
  then show ?case by simp
next
  case (Cons l ls)
  show ?case
  proof (cases i)
    case 0
    have b: "option_block (l # ls) 0
          = collect_window [''option:'', ''coaching'', ''resources'', ''stimulus'', ''comments'']
              [l] (take 9 ls)"
      by (simp add: option_block_def)
    have "option_loop ot [] (l # ls)
            = option_loop ot ([] @ [join [CHR 0x0A] (option_block (l # ls) 0)]) ls"
      using Cons.prems 0 by (simp add: Let_def b)
    also have "\<dots> = [] @ [join [CHR 0x0A] (option_block (l # ls) 0)] @ option_loop ot [] ls"
      using option_loop_parts[of ot "[join [CHR 0x0A] (option_block (l # ls) 0)]" ls] by simp
    finally show ?thesis using 0 by blast
  next
    case (Suc k)
    have bk: "option_block (l # ls) (Suc k) = option_block ls k"
      by (simp add: option_block_def)
    from Cons.prems Suc have "k < length ls" "is_in ot (lower (ls ! k))"
      "1 < length (option_block ls k)"
      by (simp_all add: bk)
    then obtain pre post
      where p: "option_loop ot [] ls = pre @ [join [CHR 0x0A] (option_block ls k)] @ post"
      using Cons.IH by blast
    define hd_parts where "hd_parts =
      (if is_in ot (lower l) \<and> 1 < length (option_block (l # ls) 0)
       then [join [CHR 0x0A] (option_block (l # ls) 0)] else [])"
    have "option_loop ot [] (l # ls) = option_loop ot hd_parts ls"
      by (simp add: hd_parts_def option_block_def Let_def)
    then have h: "option_loop ot [] (l # ls) = hd_parts @ option_loop ot [] ls"
      using option_loop_parts[of ot hd_parts ls] by simp
    have "option_loop ot [] (l # ls)
            = (hd_parts @ pre) @ [join [CHR 0x0A] (option_block (l # ls) (Suc k))] @ post"
      unfolding h p bk by simp
    then show ?thesis using Suc by blast
  qed
qed

lemma scaling_eq:
  "\<not> is_in ''rest day'' (lower (get_text soup)) \<Longrightarrow>
   scaling (extract_workout_content soup date_str) =
     join [CHR 0x0A, CHR 0x0A]
       (option_loop ''beginner option:''
          (option_loop ''intermediate option:'' (scaling_section (split_nl (get_text soup)))
             (split_nl (get_text soup)))
          (split_nl (get_text soup)))"
  by (simp add: extract_workout_content_def Let_def)

lemma scaling_blocks_not_rest:
  assumes "\<not> is_in ''rest day'' (lower (get_text soup))"
    and "lines = split_nl (get_text soup)"
    and "i < length lines" and "is_in ''intermediate option:'' (lower (lines ! i))"
    and "j < length lines" and "is_in ''beginner option:'' (lower (lines ! j))"
    and "1 < length (option_block lines i)" and "1 < length (option_block lines j)"
  shows "\<exists>pre mid post.
           scaling (extract_workout_content soup date_str)
             = join [CHR 0x0A, CHR 0x0A]
                 (pre @ [join [CHR 0x0A] (option_block lines i)] @ mid
                      @ [join [CHR 0x0A] (option_block lines j)] @ post)"
proof -
  obtain p1 q1 where 1: "option_loop ''intermediate option:'' [] lines
                           = p1 @ [join [CHR 0x0A] (option_block lines i)] @ q1"
    using option_loop_block[OF assms(3,4,7)] by blast
  obtain p2 q2 where 2: "option_loop ''beginner option:'' [] lines
                           = p2 @ [join [CHR 0x0A] (option_block lines j)] @ q2"
    using option_loop_block[OF assms(5,6,8)] by blast
  have "option_loop ''beginner option:''
          (option_loop ''intermediate option:'' (scaling_section lines) lines) lines
        = (scaling_section lines @ p1) @ [join [CHR 0x0A] (option_block lines i)] @ (q1 @ p2)
           @ [join [CHR 0x0A] (option_block lines j)] @ q2"
    using option_loop_parts[of "''beginner option:''"
            "option_loop ''intermediate option:'' (scaling_section lines) lines" lines]
      option_loop_parts[of "''intermediate option:''" "scaling_section lines" lines]
    unfolding 1 2 by simp
  then have eq: "scaling (extract_workout_content soup date_str)
             = join [CHR 0x0A, CHR 0x0A]
                 ((scaling_section lines @ p1) @ [join [CHR 0x0A] (option_block lines i)]
                    @ (q1 @ p2) @ [join [CHR 0x0A] (option_block lines j)] @ q2)"
    unfolding scaling_eq[OF assms(1)] assms(2)[symmetric] by (rule arg_cong)
  show ?thesis
    by (rule exI[of _ "scaling_section lines @ p1"], rule exI[of _ "q1 @ p2"],
        rule exI[of _ q2]) (rule eq)
qed

text \<open>
  Claim C8, as the code has it. On a page that is not a rest day, when line \<open>i\<close> has
  \<open>intermediate option:\<close> and line \<open>j\<close> has \<open>beginner option:\<close> and each block has a line
  beyond its header, the scaling field is a sequence of paragraphs separated by blank lines in
  which the intermediate block comes before the beginner block, whichever of the two lines
  comes first on the page. On a rest day the scaling field is empty.
\<close>

theorem scaling_option_blocks:
  assumes "lines = split_nl (get_text soup)"
  shows "(\<not> is_in ''rest day'' (lower (get_text soup))
          \<and> i < length lines \<and> is_in ''intermediate option:'' (lower (lines ! i))
          \<and> j < length lines \<and> is_in ''beginner option:'' (lower (lines ! j))
          \<and> 1 < length (option_block lines i) \<and> 1 < length (option_block lines j) \<longrightarrow>
          (\<exists>pre mid post.
             scaling (extract_workout_content soup date_str)
               = join [CHR 0x0A, CHR 0x0A]
                   (pre @ [join [CHR 0x0A] (option_block lines i)] @ mid
                        @ [join [CHR 0x0A] (option_block lines j)] @ post)))
       \<and> (is_in ''rest day'' (lower (get_text soup)) \<longrightarrow>
            scaling (extract_workout_content soup date_str) = [])"
proof -
  have "scaling (extract_workout_content soup date_str) = []"
    if "is_in ''rest day'' (lower (get_text soup))"
    using that by (simp add: extract_workout_content_def)
  then show ?thesis
    using scaling_blocks_not_rest [OF _ assms, of i j date_str] by blast
qed

theorem scaling_option_blocks_witness:
  "\<not> is_in ''rest day'' (lower (get_text options_page))
   \<and> (\<exists>pre mid post.
        scaling (extract_workout_content options_page ''250101'')
          = join [CHR 0x0A, CHR 0x0A]
              (pre @ [join [CHR 0x0A] [''Intermediate Option:'', ''30 pull-ups'']] @ mid
                   @ [join [CHR 0x0A] [''Beginner Option:'', ''20 ring rows'']] @ post))
   \<and> is_in ''rest day'' (lower (get_text rest_options_page))
   \<and> scaling (extract_workout_content rest_options_page ''250704'') = []
   \<and> option_block (split_nl (get_text nbsp_options_page)) 0 = [''Intermediate Option:'']
   \<and> scaling (extract_workout_content nbsp_options_page ''250101'')
       = join [CHR 0x0A] [''Beginner Option:'', ''20 ring rows'']"
proof -
  let ?lines = "split_nl (get_text options_page)"
  have h: "\<not> is_in ''rest day'' (lower (get_text options_page))"
    by code_simp
  have i: "2 < length ?lines" "is_in ''intermediate option:'' (lower (?lines ! 2))"
    by code_simp+
  have j: "4 < length ?lines" "is_in ''beginner option:'' (lower (?lines ! 4))"
    by code_simp+
  have bi: "option_block ?lines 2 = [''Intermediate Option:'', ''30 pull-ups'']"
    by code_simp
  have bj: "option_block ?lines 4 = [''Beginner Option:'', ''20 ring rows'']"
    by code_simp
  have li: "1 < length (option_block ?lines 2)" unfolding bi by simp
  have lj: "1 < length (option_block ?lines 4)" unfolding bj by simp
  have e: "\<exists>pre mid post.
        scaling (extract_workout_content options_page ''250101'')
          = join [CHR 0x0A, CHR 0x0A]
              (pre @ [join [CHR 0x0A] (option_block ?lines 2)] @ mid
                   @ [join [CHR 0x0A] (option_block ?lines 4)] @ post)"
    using h i j li lj scaling_option_blocks [OF refl, of options_page 2 4 "''250101''"]
    by blast
  have r: "is_in ''rest day'' (lower (get_text rest_options_page))"
    by code_simp
  have z: "scaling (extract_workout_content rest_options_page ''250704'') = []"
    using r scaling_option_blocks [OF refl, of rest_options_page 0 0 "''250704''"] by blast
  have n: "option_block (split_nl (get_text nbsp_options_page)) 0 = [''Intermediate Option:'']"
    by code_simp
  have m: "scaling (extract_workout_content nbsp_options_page ''250101'')
       = join [CHR 0x0A] [''Beginner Option:'', ''20 ring rows'']"
    by code_simp
  show ?thesis
    using h e r z n m unfolding bi bj by blast
qed

text \<open>With the beginner option first on the page the intermediate block still comes first
  in the field; and on a rest day the field is empty.\<close>

theorem scaling_order_counterexample:
  "split_nl (get_text reversed_options_page)
     = [''For time:'', ''50 pull-ups'', ''Beginner Option:'', ''20 ring rows'',
        ''Intermediate Option:'', ''30 pull-ups'']
   \<and> scaling (extract_workout_content reversed_options_page ''250101'')
       = join [CHR 0x0A, CHR 0x0A]
           [join [CHR 0x0A] [''Intermediate Option:'', ''30 pull-ups''],
            join [CHR 0x0A] [''Beginner Option:'', ''20 ring rows'']]
   \<and> split_nl (get_text rest_options_page)
       = [''Rest Day'', ''Intermediate Option:'', ''30 pull-ups'', ''Beginner Option:'',
          ''20 ring rows'']
   \<and> scaling (extract_workout_content rest_options_page ''250704'') = []"
  by code_simp

end
